theory Spec2Isabelle
  imports Main
begin

section \<open>Go values: errors, panics and formatted messages\<close>

text \<open>
  The decoder of \<^verbatim>\<open>decoder.go\<close> reports grammar violations by panicking with an
  error value built by \<^verbatim>\<open>fmt.Errorf\<close>. A function that can panic returns a
  \<open>result\<close>: either its value or the value it panicked with. Go tells three kinds of
  panic value apart in \<^verbatim>\<open>QuadDecoder.recover\<close>: those that are a
  \<^verbatim>\<open>runtime.Error\<close>, the other \<^verbatim>\<open>error\<close> values, and values that are no
  \<^verbatim>\<open>error\<close> at all.
\<close>

text \<open>
  Modelled from the spec: the declaration of \<^verbatim>\<open>tokenType\<close> is not part of the sources
  (only \<^verbatim>\<open>tokenError\<close> is named there). The kinds are those the spec lists for a
  token: end-of-input, lexical-error, IRI-ref, blank-node-label, literal, language-tag, dot
  and whitespace/comment, and a marker that introduces a literal's datatype IRI.
\<close>

datatype tokenType =
    tokenEOF
  | tokenError
  | tokenIRI
  | tokenBNode
  | tokenLiteral
  | tokenLang
  | tokenDataTypeMarker
  | tokenDot
  | tokenSpace

text \<open>
  Modelled from the spec: the declaration of \<^verbatim>\<open>Format\<close> is not part of the sources;
  the spec gives the closed enumeration NTriples, NQuads, Turtle, RDFXML. The names are the
  ones \<^verbatim>\<open>NewTripleDecoder\<close> uses.
\<close>

datatype Format = FormatNT | FormatNQ | FormatTTL | FormatRDFXML

text \<open>The operands handed to \<^verbatim>\<open>fmt.Errorf\<close>, each with its Go type.\<close>

datatype operand =
    OInt int
  | OString string
  | OTokenType tokenType
  | OFormat Format

text \<open>
  An \<^verbatim>\<open>error\<close> value is \<^verbatim>\<open>io.EOF\<close> or the result of
  \<^verbatim>\<open>fmt.Errorf(format, args...)\<close>, kept with its format and operands.
\<close>

datatype error = io_EOF | Errorf string "operand list"

datatype panic_value =
    RuntimeError string
  | ErrorValue error
  | OtherValue string

datatype 'a result = Return 'a | Panic panic_value

subsection \<open>Formatting\<close>

definition digit_char :: "nat \<Rightarrow> char" where
  "digit_char n = ''0123456789'' ! (n mod 10)"

fun string_of_nat :: "nat \<Rightarrow> string" where
  "string_of_nat n =
     (if n < 10 then [digit_char n] else string_of_nat (n div 10) @ [digit_char n])"

definition string_of_int :: "int \<Rightarrow> string" where
  "string_of_int i =
     (if i < 0 then CHR ''-'' # string_of_nat (nat (- i)) else string_of_nat (nat i))"

text \<open>
  \<^verbatim>\<open>fmt.Sprintf\<close> for the verbs the decoder uses: \<^verbatim>\<open>%d\<close>, \<^verbatim>\<open>%s\<close> and
  \<^verbatim>\<open>%v\<close> each print the next operand (\<open>sh\<close> renders one operand), and
  \<^verbatim>\<open>%%\<close> prints a percent sign. A verb with no operand left prints Go's
  \<^verbatim>\<open>%!v(MISSING)\<close>, a percent sign at the end \<^verbatim>\<open>%!(NOVERB)\<close>. The model
  covers the calls of \<^verbatim>\<open>decoder.go\<close>, where every verb is one of these three, has
  an operand of its kind, and no operand is left over. Outside them it is not Go's
  \<^verbatim>\<open>fmt\<close>: other verbs are copied as they stand, and what Go prints for an operand
  that is left over (\<^verbatim>\<open>%!(EXTRA ...)\<close>) or does not fit its verb
  (\<^verbatim>\<open>%!d(string=...)\<close>) is not modelled.
\<close>

fun Sprintf :: "('v \<Rightarrow> string) \<Rightarrow> string \<Rightarrow> 'v list \<Rightarrow> string" where
  "Sprintf sh [] args = []"
| "Sprintf sh (c # cs) args =
     (if c = CHR ''%'' then
        (case cs of
           [] \<Rightarrow> ''%!(NOVERB)''
         | v # rest \<Rightarrow>
             if v = CHR ''d'' \<or> v = CHR ''s'' \<or> v = CHR ''v'' then
               (case args of
                  [] \<Rightarrow> ''%!'' @ [v] @ ''(MISSING)'' @ Sprintf sh rest []
                | a # as \<Rightarrow> sh a @ Sprintf sh rest as)
             else if v = CHR ''%'' then CHR ''%'' # Sprintf sh rest args
             else c # v # Sprintf sh rest args)
      else c # Sprintf sh cs args)"

text \<open>
  How one operand prints. Integers print in decimal and strings as they are. A
  \<^verbatim>\<open>tokenType\<close> or a \<^verbatim>\<open>Format\<close> prints as its own type decides (its
  \<^verbatim>\<open>String\<close> method, or the number behind it); those declarations are not part of
  the sources, so the rendering \<open>str\<close> is a parameter.
\<close>

fun show_operand :: "(operand \<Rightarrow> string) \<Rightarrow> operand \<Rightarrow> string" where
  "show_operand str (OInt i) = string_of_int i"
| "show_operand str (OString s) = s"
| "show_operand str (OTokenType k) = str (OTokenType k)"
| "show_operand str (OFormat f) = str (OFormat f)"

text \<open>The message of an error value (its \<^verbatim>\<open>Error()\<close> method).\<close>

fun error_message :: "(operand \<Rightarrow> string) \<Rightarrow> error \<Rightarrow> string" where
  "error_message str io_EOF = ''EOF''"
| "error_message str (Errorf fm args) = Sprintf (show_operand str) fm args"

section \<open>The term model\<close>

text \<open>
  Modelled from the spec: the term model is not part of the sources. A term is an IRI, a
  blank node with its identifier, or a literal with its lexical form, an optional datatype
  IRI and an optional language tag. A quad is a triple with a context; a field that has
  not been assigned holds Go's nil, which is \<open>None\<close>.
\<close>

datatype Term =
    IRI string
  | Blank string
  | Literal string "string option" "string option"

type_synonym Context = Term

record Quad =
  Subject :: "Term option"
  Predicate :: "Term option"
  Object :: "Term option"
  Context :: "Context option"

text \<open>The zero value of \<^verbatim>\<open>Quad\<close>.\<close>

definition zero_Quad :: Quad where
  "zero_Quad = \<lparr>Subject = None, Predicate = None, Object = None, Context = None\<rparr>"

section \<open>Tokens and the lookahead buffer\<close>

text \<open>
  A token as the lexer yields it: \<^verbatim>\<open>typ\<close>, \<^verbatim>\<open>text\<close>, \<^verbatim>\<open>line\<close> and
  \<^verbatim>\<open>col\<close> (the first two names are primed here).
\<close>

record token =
  typ' :: tokenType
  text' :: string
  line :: int
  col :: int

text \<open>The zero value of \<^verbatim>\<open>token\<close>, with the first kind of the enumeration.\<close>

definition zero_token :: token where
  "zero_token = \<lparr>typ' = tokenEOF, text' = [], line = 0, col = 0\<rparr>"

text \<open>
  The array \<^verbatim>\<open>[3]token\<close>. Indexing outside \<open>0..2\<close> is a Go runtime error, which
  panics. The decoder assigns slot 0 only (\<^verbatim>\<open>d.tokens[0] = ...\<close>).
\<close>

datatype 'a array3 = Array3 'a 'a 'a

fun index3 :: "'a array3 \<Rightarrow> int \<Rightarrow> 'a result" where
  "index3 (Array3 a b c) i =
     (if i = 0 then Return a
      else if i = 1 then Return b
      else if i = 2 then Return c
      else Panic (RuntimeError ''index out of range''))"

fun assign0 :: "'a array3 \<Rightarrow> 'a \<Rightarrow> 'a array3" where
  "assign0 (Array3 a b c) v = Array3 v b c"

text \<open>
  The decoder. Its lexer \<open>l\<close> is a state of type \<open>'l\<close>; the lexer's
  \<^verbatim>\<open>nextToken\<close>, which is not part of the sources, is the parameter
  \<open>nextToken\<close> of the functions below: it yields a token and the lexer's next state.
\<close>

record 'l QuadDecoder =
  l :: 'l
  format :: Format
  DefaultGraph :: Context
  tokens :: "token array3"
  peekCount :: int

definition NewQuadDecoder :: "('r \<Rightarrow> 'l) \<Rightarrow> 'r \<Rightarrow> Format \<Rightarrow> 'l QuadDecoder" where
  "NewQuadDecoder newLineLexer r f =
     \<lparr>l = newLineLexer r,
      format = f,
      DefaultGraph = Blank ''_:defaultGraph'',
      tokens = Array3 zero_token zero_token zero_token,
      peekCount = 0\<rparr>"

text \<open>\<^verbatim>\<open>next\<close> returns the next token.\<close>

definition next' ::
  "('l \<Rightarrow> token \<times> 'l) \<Rightarrow> 'l QuadDecoder \<Rightarrow> token result \<times> 'l QuadDecoder" where
  "next' nextToken d =
     (let d1 =
        (if peekCount d > 0 then d\<lparr>peekCount := peekCount d - 1\<rparr>
         else (case nextToken (l d) of
                 (t, l1) \<Rightarrow> d\<lparr>l := l1, tokens := assign0 (tokens d) t\<rparr>))
      in (index3 (tokens d1) (peekCount d1), d1))"

text \<open>\<^verbatim>\<open>peek\<close> returns but does not consume the next token.\<close>

definition peek ::
  "('l \<Rightarrow> token \<times> 'l) \<Rightarrow> 'l QuadDecoder \<Rightarrow> token result \<times> 'l QuadDecoder" where
  "peek nextToken d =
     (if peekCount d > 0 then (index3 (tokens d) (peekCount d - 1), d)
      else (case nextToken (l d) of
              (t, l1) \<Rightarrow>
                (let d1 = d\<lparr>peekCount := 1, l := l1, tokens := assign0 (tokens d) t\<rparr>
                 in (index3 (tokens d1) 0, d1))))"

text \<open>
  A sequence of buffer operations, run from left to right; a panic ends the run. The
  tokens returned are collected in order.
\<close>

datatype bufop = OpNext | OpPeek

fun apply_op ::
  "('l \<Rightarrow> token \<times> 'l) \<Rightarrow> bufop \<Rightarrow> 'l QuadDecoder \<Rightarrow> token result \<times> 'l QuadDecoder" where
  "apply_op nextToken OpNext d = next' nextToken d"
| "apply_op nextToken OpPeek d = peek nextToken d"

fun run_ops ::
  "('l \<Rightarrow> token \<times> 'l) \<Rightarrow> bufop list \<Rightarrow> 'l QuadDecoder \<Rightarrow> token list result \<times> 'l QuadDecoder"
  where
  "run_ops nextToken [] d = (Return [], d)"
| "run_ops nextToken (b # bs) d =
     (case apply_op nextToken b d of
        (Panic p, d1) \<Rightarrow> (Panic p, d1)
      | (Return t, d1) \<Rightarrow>
          (case run_ops nextToken bs d1 of
             (Panic p, d2) \<Rightarrow> (Panic p, d2)
           | (Return ts, d2) \<Rightarrow> (Return (t # ts), d2)))"

text \<open>Slots 1 and 2 of the token array.\<close>

fun slot1 :: "'a array3 \<Rightarrow> 'a" where
  "slot1 (Array3 a b c) = b"

fun slot2 :: "'a array3 \<Rightarrow> 'a" where
  "slot2 (Array3 a b c) = c"

text \<open>
  Modelled from the spec: the lexer is not part of the sources. The spec has it yield
  tokens on demand, never rewind, and yield end-of-input at exhaustion. This lexer reads a
  finite input: its state is the list of the tokens still to come.
\<close>

definition eof_token :: token where
  "eof_token = \<lparr>typ' = tokenEOF, text' = [], line = 1, col = 1\<rparr>"

fun list_lexer :: "token list \<Rightarrow> token \<times> token list" where
  "list_lexer [] = (eof_token, [])"
| "list_lexer (t # ts) = (t, ts)"

section \<open>Expectation checks and error plumbing\<close>

text \<open>
  \<^verbatim>\<open>errorf\<close> formats the error and terminates parsing: it always panics, with an
  error value that is not a runtime error. Its first statement passes the format through
  \<^verbatim>\<open>fmt.Sprintf("%s", format)\<close>, whose one operand is a string.
\<close>

definition errorf :: "string \<Rightarrow> operand list \<Rightarrow> 'a result" where
  "errorf format' args =
     (let format1 = Sprintf (\<lambda>s. s) ''%s'' [format']
      in Panic (ErrorValue (Errorf format1 args)))"

text \<open>\<^verbatim>\<open>unexpected\<close> complains about the given token (the parameter
  \<^verbatim>\<open>context\<close> is primed here).\<close>

definition unexpected :: "token \<Rightarrow> string \<Rightarrow> 'a result" where
  "unexpected t context' =
     errorf ''%d:%d unexpected %v as %s''
       [OInt (line t), OInt (col t), OTokenType (typ' t), OString context']"

text \<open>\<^verbatim>\<open>expect1As\<close> consumes the next token and checks that it has the expected type.\<close>

definition expect1As ::
  "('l \<Rightarrow> token \<times> 'l) \<Rightarrow> string \<Rightarrow> tokenType \<Rightarrow> 'l QuadDecoder
     \<Rightarrow> token result \<times> 'l QuadDecoder" where
  "expect1As nextToken context' expected d =
     (case next' nextToken d of
        (Panic p, d1) \<Rightarrow> (Panic p, d1)
      | (Return t, d1) \<Rightarrow>
          if typ' t \<noteq> expected then
            (if typ' t = tokenError then
               (errorf ''%d:%d: syntax error: %s''
                  [OInt (line t), OInt (col t), OString (text' t)], d1)
             else (unexpected t context', d1))
          else (Return t, d1))"

text \<open>The loop of \<^verbatim>\<open>expectAs\<close> over the expected types.\<close>

fun one_of :: "tokenType \<Rightarrow> tokenType list \<Rightarrow> bool" where
  "one_of k [] = False"
| "one_of k (e # es) = (if k = e then True else one_of k es)"

definition expectAs ::
  "('l \<Rightarrow> token \<times> 'l) \<Rightarrow> string \<Rightarrow> tokenType list \<Rightarrow> 'l QuadDecoder
     \<Rightarrow> token result \<times> 'l QuadDecoder" where
  "expectAs nextToken context' expected d =
     (case next' nextToken d of
        (Panic p, d1) \<Rightarrow> (Panic p, d1)
      | (Return t, d1) \<Rightarrow>
          if one_of (typ' t) expected then (Return t, d1)
          else if typ' t = tokenError then
            (errorf ''%d:%d: syntax error: %v''
               [OInt (line t), OInt (col t), OString (text' t)], d1)
          else (unexpected t context', d1))"

text \<open>
  \<^verbatim>\<open>recover\<close>, run as a deferred call: \<open>e\<close> is what Go's \<^verbatim>\<open>recover()\<close>
  returns there (\<open>None\<close> when nothing panicked) and \<open>err\<close> is the error the pointer
  \<^verbatim>\<open>errp\<close> refers to. The result is that error afterwards, or a new panic: a runtime
  error is panicked again, and the type assertion \<^verbatim>\<open>e.(error)\<close> on a value that is no
  error is a runtime error itself.
\<close>

definition recover :: "panic_value option \<Rightarrow> error option \<Rightarrow> error option result" where
  "recover e err =
     (case e of
        None \<Rightarrow> Return err
      | Some (RuntimeError m) \<Rightarrow> Panic (RuntimeError m)
      | Some (ErrorValue x) \<Rightarrow> Return (Some x)
      | Some (OtherValue v) \<Rightarrow> Panic (RuntimeError ''interface conversion''))"

section \<open>The decoder facade\<close>

text \<open>
  \<^verbatim>\<open>Decode\<close> returns what \<^verbatim>\<open>parseNQ\<close> returns: a quad and an error (\<open>None\<close> is
  Go's nil), unless the call panics. The parsing routine is a parameter here.
\<close>

definition Decode ::
  "('s \<Rightarrow> (Quad \<times> error option) result \<times> 's) \<Rightarrow> 's \<Rightarrow> (Quad \<times> error option) result \<times> 's"
  where
  "Decode parseNQ d = parseNQ d"

text \<open>
  The loop of \<^verbatim>\<open>DecodeAll\<close>, with the quads collected so far. It ends when a call of
  \<^verbatim>\<open>Decode\<close> returns an error or panics; when no call does, it does not return, which
  is the value \<open>None\<close>.
\<close>

partial_function (option) DecodeAll_loop ::
  "('s \<Rightarrow> (Quad \<times> error option) result \<times> 's) \<Rightarrow> Quad list \<Rightarrow> 's
     \<Rightarrow> ((Quad list \<times> error option) result \<times> 's) option" where
  "DecodeAll_loop parseNQ qs d =
     (case Decode parseNQ d of
        (Panic p, d1) \<Rightarrow> Some (Panic p, d1)
      | (Return (q, err), d1) \<Rightarrow>
          if err = Some io_EOF then Some (Return (qs, None), d1)
          else if err \<noteq> None then Some (Return ([], err), d1)
          else DecodeAll_loop parseNQ (qs @ [q]) d1)"

declare DecodeAll_loop.simps [code]

definition DecodeAll ::
  "('s \<Rightarrow> (Quad \<times> error option) result \<times> 's) \<Rightarrow> 's
     \<Rightarrow> ((Quad list \<times> error option) result \<times> 's) option" where
  "DecodeAll parseNQ d = DecodeAll_loop parseNQ [] d"

text \<open>
  The first \<open>n\<close> calls of \<^verbatim>\<open>Decode\<close> from a state, when each of them returns a quad
  and no error: the quads in the order of the calls, and the state after the last.
\<close>

fun decoded ::
  "('s \<Rightarrow> (Quad \<times> error option) result \<times> 's) \<Rightarrow> nat \<Rightarrow> 's \<Rightarrow> (Quad list \<times> 's) option" where
  "decoded parseNQ 0 d = Some ([], d)"
| "decoded parseNQ (Suc n) d =
     (case Decode parseNQ d of
        (Return (q, None), d1) \<Rightarrow>
          (case decoded parseNQ n d1 of
             None \<Rightarrow> None
           | Some (qs, d2) \<Rightarrow> Some (q # qs, d2))
      | (Return (q, Some e), d1) \<Rightarrow> None
      | (Panic p, d1) \<Rightarrow> None)"

text \<open>
  Modelled from the spec: the three triple parsers (\<^verbatim>\<open>newNTDecoder\<close>,
  \<^verbatim>\<open>newRDFXMLDecoder\<close>, \<^verbatim>\<open>newTTLDecoder\<close>) are not part of the sources. The spec
  describes them as a closed union of parser variants behind one interface; each variant
  holds the reader it was made for.
\<close>

datatype 'r TripleDecoder = NTDecoder 'r | RDFXMLDecoder 'r | TTLDecoder 'r

definition NewTripleDecoder :: "'r \<Rightarrow> Format \<Rightarrow> 'r TripleDecoder result" where
  "NewTripleDecoder r f =
     (case f of
        FormatNT \<Rightarrow> Return (NTDecoder r)
      | FormatRDFXML \<Rightarrow> Return (RDFXMLDecoder r)
      | FormatTTL \<Rightarrow> Return (TTLDecoder r)
      | _ \<Rightarrow>
          Panic (ErrorValue
            (Errorf ''Decoder for serialization format %s not implemented'' [OFormat f])))"

section \<open>The N-Quads parsing routine\<close>

text \<open>
  Modelled from the spec: \<^verbatim>\<open>parseNQ\<close> is not part of the sources. The routine follows
  the state machine the spec gives for one quad, on the expectation checks above:
  skip the leading whitespace and comment tokens; look at the token that follows and
  signal \<^verbatim>\<open>io.EOF\<close> when it is end-of-input; expect a
  subject (an IRI-ref or a blank-node label), a predicate (an IRI-ref) and an object (an
  IRI-ref, a blank-node label or a literal, the literal with an optional language tag or
  datatype IRI); take a graph label (an IRI-ref or a blank-node label) when one follows,
  and the default graph otherwise; expect the final dot. The outcome holds the error to
  return (or the panic), the quad as far as it was built, and the decoder.
\<close>

definition term_of_token :: "token \<Rightarrow> Term" where
  "term_of_token t = (if typ' t = tokenBNode then Blank (text' t) else IRI (text' t))"

definition parse_object ::
  "('l \<Rightarrow> token \<times> 'l) \<Rightarrow> 'l QuadDecoder \<Rightarrow> Term result \<times> 'l QuadDecoder" where
  "parse_object nextToken d =
     (case expectAs nextToken ''object'' [tokenIRI, tokenBNode, tokenLiteral] d of
        (Panic p, d1) \<Rightarrow> (Panic p, d1)
      | (Return t, d1) \<Rightarrow>
          if typ' t = tokenLiteral then
            (case peek nextToken d1 of
               (Panic p, d2) \<Rightarrow> (Panic p, d2)
             | (Return s, d2) \<Rightarrow>
                 if typ' s = tokenLang then
                   (case next' nextToken d2 of
                      (Panic p, d3) \<Rightarrow> (Panic p, d3)
                    | (Return g, d3) \<Rightarrow> (Return (Literal (text' t) None (Some (text' g))), d3))
                 else if typ' s = tokenDataTypeMarker then
                   (case next' nextToken d2 of
                      (Panic p, d3) \<Rightarrow> (Panic p, d3)
                    | (Return m, d3) \<Rightarrow>
                        (case expect1As nextToken ''literal datatype'' tokenIRI d3 of
                           (Panic p, d4) \<Rightarrow> (Panic p, d4)
                         | (Return i, d4) \<Rightarrow>
                             (Return (Literal (text' t) (Some (text' i)) None), d4)))
                 else (Return (Literal (text' t) None None), d2))
          else (Return (term_of_token t), d1))"

definition parse_graph ::
  "('l \<Rightarrow> token \<times> 'l) \<Rightarrow> 'l QuadDecoder \<Rightarrow> Context result \<times> 'l QuadDecoder" where
  "parse_graph nextToken d =
     (case peek nextToken d of
        (Panic p, d1) \<Rightarrow> (Panic p, d1)
      | (Return s, d1) \<Rightarrow>
          if typ' s = tokenIRI \<or> typ' s = tokenBNode then
            (case next' nextToken d1 of
               (Panic p, d2) \<Rightarrow> (Panic p, d2)
             | (Return g, d2) \<Rightarrow> (Return (term_of_token g), d2))
          else (Return (DefaultGraph d1), d1))"

definition parse_statement ::
  "('l \<Rightarrow> token \<times> 'l) \<Rightarrow> Quad \<Rightarrow> 'l QuadDecoder
     \<Rightarrow> error option result \<times> Quad \<times> 'l QuadDecoder" where
  "parse_statement nextToken q d =
     (case expectAs nextToken ''subject'' [tokenIRI, tokenBNode] d of
        (Panic p, d1) \<Rightarrow> (Panic p, q, d1)
      | (Return s, d1) \<Rightarrow>
          (let q1 = q\<lparr>Subject := Some (term_of_token s)\<rparr> in
           case expect1As nextToken ''predicate'' tokenIRI d1 of
             (Panic p, d2) \<Rightarrow> (Panic p, q1, d2)
           | (Return t, d2) \<Rightarrow>
               (let q2 = q1\<lparr>Predicate := Some (IRI (text' t))\<rparr> in
                case parse_object nextToken d2 of
                  (Panic p, d3) \<Rightarrow> (Panic p, q2, d3)
                | (Return ob, d3) \<Rightarrow>
                    (let q3 = q2\<lparr>Object := Some ob\<rparr> in
                     case parse_graph nextToken d3 of
                       (Panic p, d4) \<Rightarrow> (Panic p, q3, d4)
                     | (Return g, d4) \<Rightarrow>
                         (let q4 = q3\<lparr>Context := Some g\<rparr> in
                          case expect1As nextToken ''dot'' tokenDot d4 of
                            (Panic p, d5) \<Rightarrow> (Panic p, q4, d5)
                          | (Return e, d5) \<Rightarrow> (Return None, q4, d5))))))"

text \<open>
  The skip step: while the next token is whitespace or a comment, consume it. The loop
  runs on the list lexer, where it ends: each round takes a token out of the buffer or out
  of the list.
\<close>

function skip_space :: "token list QuadDecoder \<Rightarrow> unit result \<times> token list QuadDecoder" where
  "skip_space d =
     (case peek list_lexer d of
        (Panic p, d1) \<Rightarrow> (Panic p, d1)
      | (Return t, d1) \<Rightarrow>
          if typ' t = tokenSpace then
            (case next' list_lexer d1 of
               (Panic p, d2) \<Rightarrow> (Panic p, d2)
             | (Return u, d2) \<Rightarrow> skip_space d2)
          else (Return (), d1))"
  by pat_completeness auto
termination
proof (relation "measure (\<lambda>d. length (l d) + nat (peekCount d))")
  show "wf (measure (\<lambda>d. length (l d) + nat (peekCount d)))"
    by simp
next
  fix d :: "token list QuadDecoder" and r d1 t r2 d2 u
  assume "(r, d1) = peek list_lexer d" and "r = Return t" and "typ' t = tokenSpace"
    and "(r2, d2) = next' list_lexer d1" and "r2 = Return u"
  then show "(d2, d) \<in> measure (\<lambda>d. length (l d) + nat (peekCount d))"
    by (cases "tokens d"; cases "l d")
      (auto simp: peek_def next'_def Let_def eof_token_def split: if_splits prod.splits)
qed

definition parseNQ_body ::
  "token list QuadDecoder \<Rightarrow> error option result \<times> Quad \<times> token list QuadDecoder" where
  "parseNQ_body d =
     (case skip_space d of
        (Panic p, d0) \<Rightarrow> (Panic p, zero_Quad, d0)
      | (Return u, d0) \<Rightarrow>
          (case peek list_lexer d0 of
             (Panic p, d1) \<Rightarrow> (Panic p, zero_Quad, d1)
           | (Return t, d1) \<Rightarrow>
               if typ' t = tokenEOF then (Return (Some io_EOF), zero_Quad, d1)
               else parse_statement list_lexer zero_Quad d1))"

text \<open>
  Modelled from the spec: the \<^verbatim>\<open>defer d.recover(&err)\<close> of the parsing routine is
  not part of the sources; the spec has a grammar violation caught once, at the boundary of
  \<^verbatim>\<open>Decode\<close>. The deferred \<^verbatim>\<open>recover\<close> runs when the routine's body returns or
  panics, on the named results \<^verbatim>\<open>q\<close> and \<^verbatim>\<open>err\<close>; \<^verbatim>\<open>err\<close> is still nil when
  the body panics.
\<close>

definition deferred_recover ::
  "error option result \<times> Quad \<times> 's \<Rightarrow> (Quad \<times> error option) result \<times> 's" where
  "deferred_recover out =
     (case out of
        (Return err, q, s) \<Rightarrow>
          (case recover None err of
             Return err1 \<Rightarrow> (Return (q, err1), s)
           | Panic p1 \<Rightarrow> (Panic p1, s))
      | (Panic p, q, s) \<Rightarrow>
          (case recover (Some p) None of
             Return err1 \<Rightarrow> (Return (q, err1), s)
           | Panic p1 \<Rightarrow> (Panic p1, s)))"

definition parseNQ ::
  "token list QuadDecoder \<Rightarrow> (Quad \<times> error option) result \<times> token list QuadDecoder" where
  "parseNQ d = deferred_recover (parseNQ_body d)"

text \<open>
  The tokens a decoder has still to consume, where at most one is buffered: the buffered
  token, then those the lexer holds. The first token of a stream is its first token that
  is no whitespace or comment; past the end of the list the lexer yields end-of-input.
  The stream is exhausted when its first token is end-of-input.
\<close>

fun slot0 :: "'a array3 \<Rightarrow> 'a" where
  "slot0 (Array3 a b c) = a"

definition pending :: "token list QuadDecoder \<Rightarrow> token list" where
  "pending d = (if peekCount d > 0 then [slot0 (tokens d)] else []) @ l d"

definition first_token :: "token list \<Rightarrow> token" where
  "first_token ts =
     (case dropWhile (\<lambda>t. typ' t = tokenSpace) ts of
        [] \<Rightarrow> eof_token
      | t # rest \<Rightarrow> t)"

definition exhausted :: "token list \<Rightarrow> bool" where
  "exhausted ts = (typ' (first_token ts) = tokenEOF)"

text \<open>
  A scripted parsing routine, for concrete runs: its state is the list of results still
  to come, and at the end it signals \<^verbatim>\<open>io.EOF\<close>.
\<close>

fun replay ::
  "(Quad \<times> error option) list
     \<Rightarrow> (Quad \<times> error option) result \<times> (Quad \<times> error option) list" where
  "replay [] = (Return (zero_Quad, Some io_EOF), [])"
| "replay (r # rs) = (Return r, rs)"

definition quad_a :: Quad where
  "quad_a = \<lparr>Subject = Some (IRI ''a''), Predicate = Some (IRI ''p''),
     Object = Some (Literal ''x'' None None), Context = Some (Blank ''_:defaultGraph'')\<rparr>"

definition quad_b :: Quad where
  "quad_b = \<lparr>Subject = Some (Blank ''b''), Predicate = Some (IRI ''p''),
     Object = Some (IRI ''o''), Context = Some (IRI ''g'')\<rparr>"

definition syntax_fault :: error where
  "syntax_fault = Errorf ''%d:%d unexpected %v as %s''
     [OInt 3, OInt 1, OTokenType tokenDot, OString ''subject'']"

text \<open>A dot token, a comment token and a rendering of token kinds, for concrete runs.\<close>

definition dot_token :: token where
  "dot_token = \<lparr>typ' = tokenDot, text' = ''.'', line = 3, col = 7\<rparr>"

definition comment_token :: token where
  "comment_token = \<lparr>typ' = tokenSpace, text' = ''# c'', line = 1, col = 1\<rparr>"

definition kind_name :: "operand \<Rightarrow> string" where
  "kind_name x = (case x of OTokenType tokenDot \<Rightarrow> ''dot'' | _ \<Rightarrow> ''other'')"

section \<open>The lookahead buffer\<close>

lemma index3_in_range:
  "0 \<le> i \<Longrightarrow> i \<le> 2 \<Longrightarrow> \<exists>t. index3 a i = Return t"
  by (cases a) auto

lemma assign0_slot1: "slot1 (assign0 a v) = slot1 a"
  by (cases a) simp

lemma assign0_slot2: "slot2 (assign0 a v) = slot2 a"
  by (cases a) simp

lemma index3_assign0: "index3 (assign0 a v) 0 = Return v"
  by (cases a) simp

lemma peek_next_same: "0 \<le> peekCount d \<Longrightarrow> next' nt (snd (peek nt d)) = next' nt d"
  by (auto simp: peek_def next'_def Let_def split: prod.splits)

lemma peek_idem: "peek nt (snd (peek nt d)) = (fst (peek nt d), snd (peek nt d))"
  by (auto simp: peek_def Let_def index3_assign0 split: prod.splits)

lemma peek_returns:
  "peekCount d \<le> 3 \<Longrightarrow> \<exists>t. fst (peek nt d) = Return t"
  using index3_in_range [of "peekCount d - 1" "tokens d"]
  by (auto simp: peek_def Let_def index3_assign0 split: prod.splits)

lemma next_after_peek_lexer:
  "l (snd (next' nt (snd (peek nt d)))) = l (snd (peek nt d))"
  by (auto simp: peek_def next'_def Let_def split: prod.splits)

lemma peek_lexer:
  "l (snd (peek nt d)) = (if peekCount d > 0 then l d else snd (nt (l d)))"
  by (auto simp: peek_def Let_def split: prod.splits)

lemma next_lexer:
  "l (snd (next' nt d)) = (if peekCount d > 0 then l d else snd (nt (l d)))"
  by (auto simp: next'_def Let_def split: prod.splits)

lemma next_after_peek_token:
  "peekCount d \<le> 3 \<Longrightarrow> fst (next' nt (snd (peek nt d))) = fst (peek nt d)"
  by (auto simp: peek_def next'_def Let_def index3_assign0 split: prod.splits)

lemma peeks_fix:
  "((\<lambda>s. snd (peek nt s)) ^^ Suc n) d = snd (peek nt d)"
proof (induction n)
  case 0
  show ?case by simp
next
  case (Suc n)
  have "((\<lambda>s. snd (peek nt s)) ^^ Suc (Suc n)) d
      = snd (peek nt (((\<lambda>s. snd (peek nt s)) ^^ Suc n) d))"
    by simp
  also have "\<dots> = snd (peek nt (snd (peek nt d)))"
    using Suc.IH by simp
  also have "\<dots> = snd (peek nt d)"
    by (simp add: peek_idem)
  finally show ?case .
qed

lemma peeks_token:
  "fst (peek nt (((\<lambda>s. snd (peek nt s)) ^^ n) d)) = fst (peek nt d)"
proof (cases n)
  case 0
  then show ?thesis by simp
next
  case (Suc m)
  then show ?thesis
    using peeks_fix [where nt = nt and n = m and d = d] by (simp add: peek_idem)
qed

lemma next_inv:
  assumes "0 \<le> peekCount d" "peekCount d \<le> 1"
  shows "\<exists>t d1. next' nt d = (Return t, d1) \<and> peekCount d1 = 0
           \<and> slot1 (tokens d1) = slot1 (tokens d) \<and> slot2 (tokens d1) = slot2 (tokens d)
           \<and> DefaultGraph d1 = DefaultGraph d \<and> format d1 = format d"
proof (cases "peekCount d > 0")
  case True
  with assms have "peekCount d = 1" by simp
  then show ?thesis
    using index3_in_range [of 0 "tokens d"] by (auto simp: next'_def Let_def)
next
  case False
  with assms have "peekCount d = 0" by simp
  then show ?thesis
    by (auto simp: next'_def Let_def index3_assign0 assign0_slot1 assign0_slot2 split: prod.splits)
qed

lemma peek_inv:
  assumes "0 \<le> peekCount d" "peekCount d \<le> 1"
  shows "\<exists>t d1. peek nt d = (Return t, d1) \<and> peekCount d1 = 1
           \<and> slot1 (tokens d1) = slot1 (tokens d) \<and> slot2 (tokens d1) = slot2 (tokens d)
           \<and> DefaultGraph d1 = DefaultGraph d \<and> format d1 = format d"
proof (cases "peekCount d > 0")
  case True
  with assms have "peekCount d = 1" by simp
  then show ?thesis
    using index3_in_range [of 0 "tokens d"] by (auto simp: peek_def Let_def)
next
  case False
  with assms have "peekCount d = 0" by simp
  then show ?thesis
    by (auto simp: peek_def Let_def index3_assign0 assign0_slot1 assign0_slot2 split: prod.splits)
qed

lemma apply_op_inv:
  assumes "0 \<le> peekCount d" "peekCount d \<le> 1"
  shows "\<exists>t d1. apply_op nt b d = (Return t, d1) \<and> 0 \<le> peekCount d1 \<and> peekCount d1 \<le> 1
           \<and> slot1 (tokens d1) = slot1 (tokens d) \<and> slot2 (tokens d1) = slot2 (tokens d)
           \<and> DefaultGraph d1 = DefaultGraph d \<and> format d1 = format d"
proof (cases b)
  case OpNext
  then show ?thesis using next_inv [OF assms, of nt] by auto
next
  case OpPeek
  then show ?thesis using peek_inv [OF assms, of nt] by auto
qed

lemma run_ops_inv:
  "0 \<le> peekCount d \<Longrightarrow> peekCount d \<le> 1 \<Longrightarrow>
   \<exists>ts d1. run_ops nt bs d = (Return ts, d1) \<and> length ts = length bs
      \<and> 0 \<le> peekCount d1 \<and> peekCount d1 \<le> 1
      \<and> slot1 (tokens d1) = slot1 (tokens d) \<and> slot2 (tokens d1) = slot2 (tokens d)
      \<and> DefaultGraph d1 = DefaultGraph d \<and> format d1 = format d"
proof (induction bs arbitrary: d)
  case Nil
  then show ?case by simp
next
  case (Cons b bs)
  from apply_op_inv [OF Cons.prems, of nt b]
  obtain t d1 where step: "apply_op nt b d = (Return t, d1)"
    and pc: "0 \<le> peekCount d1" "peekCount d1 \<le> 1"
    and keep: "slot1 (tokens d1) = slot1 (tokens d)" "slot2 (tokens d1) = slot2 (tokens d)"
      "DefaultGraph d1 = DefaultGraph d" "format d1 = format d"
    by blast
  from Cons.IH [OF pc]
  obtain ts d2 where rest: "run_ops nt bs d1 = (Return ts, d2)" "length ts = length bs"
    and pc2: "0 \<le> peekCount d2" "peekCount d2 \<le> 1"
    and keep2: "slot1 (tokens d2) = slot1 (tokens d1)" "slot2 (tokens d2) = slot2 (tokens d1)"
      "DefaultGraph d2 = DefaultGraph d1" "format d2 = format d1"
    by blast
  have "run_ops nt (b # bs) d = (Return (t # ts), d2)"
    using step rest by simp
  then show ?case
    using rest pc2 keep keep2 by simp
qed

lemma new_decoder_peekCount: "peekCount (NewQuadDecoder nl r f) = 0"
  by (simp add: NewQuadDecoder_def)

lemma run_ops_new_peekCount:
  "peekCount (snd (run_ops nt bs (NewQuadDecoder nl r f))) \<le> 1"
  using run_ops_inv [of "NewQuadDecoder nl r f" nt bs]
  by (auto simp: new_decoder_peekCount)

lemma run_ops_new_slots:
  "slot1 (tokens (snd (run_ops nt bs (NewQuadDecoder nl r f)))) = zero_token
   \<and> slot2 (tokens (snd (run_ops nt bs (NewQuadDecoder nl r f)))) = zero_token"
proof -
  have "slot1 (tokens (NewQuadDecoder nl r f)) = zero_token"
    and "slot2 (tokens (NewQuadDecoder nl r f)) = zero_token"
    by (simp_all add: NewQuadDecoder_def)
  then show ?thesis
    using run_ops_inv [of "NewQuadDecoder nl r f" nt bs]
    by (auto simp: new_decoder_peekCount)
qed

text \<open>
  Claim C4. Where the lookahead index is inside the token array, \<^verbatim>\<open>peek\<close> returns a
  token, the one \<^verbatim>\<open>next\<close> would return; any number of further \<^verbatim>\<open>peek\<close> calls
  return that token again; a \<^verbatim>\<open>next\<close> after the \<^verbatim>\<open>peek\<close> returns it too, leaves
  the decoder as a \<^verbatim>\<open>next\<close> alone would, and does not touch the lexer; and
  \<^verbatim>\<open>peek\<close> and \<^verbatim>\<open>next\<close> take a token from the lexer only when nothing is
  buffered.
\<close>

theorem peek_does_not_consume:
  assumes "0 \<le> peekCount d" and "peekCount d \<le> 3"
  shows "\<exists>t. fst (peek nt d) = Return t
      \<and> (\<forall>n. fst (peek nt (((\<lambda>s. snd (peek nt s)) ^^ n) d)) = Return t)
      \<and> fst (next' nt (snd (peek nt d))) = Return t
      \<and> next' nt (snd (peek nt d)) = next' nt d
      \<and> l (snd (next' nt (snd (peek nt d)))) = l (snd (peek nt d))
      \<and> l (snd (peek nt d)) = (if peekCount d > 0 then l d else snd (nt (l d)))
      \<and> l (snd (next' nt d)) = (if peekCount d > 0 then l d else snd (nt (l d)))"
proof -
  from peek_returns [OF assms(2), of nt]
  obtain t where t: "fst (peek nt d) = Return t" by blast
  have again: "\<forall>n. fst (peek nt (((\<lambda>s. snd (peek nt s)) ^^ n) d)) = Return t"
    using t by (simp add: peeks_token)
  have after: "fst (next' nt (snd (peek nt d))) = Return t"
    using t next_after_peek_token [OF assms(2), of nt] by simp
  have same: "next' nt (snd (peek nt d)) = next' nt d"
    by (rule peek_next_same [OF assms(1)])
  show ?thesis
    using t again after same next_after_peek_lexer [of nt d] peek_lexer [of nt d]
      next_lexer [of nt d]
    by blast
qed

theorem peek_does_not_consume_witness:
  "0 \<le> peekCount (NewQuadDecoder (\<lambda>r. r) [eof_token] FormatNQ)
   \<and> peekCount (NewQuadDecoder (\<lambda>r. r) [eof_token] FormatNQ) \<le> 3
   \<and> fst (peek list_lexer (NewQuadDecoder (\<lambda>r. r) [eof_token] FormatNQ)) = Return eof_token
   \<and> fst (next' list_lexer (snd (peek list_lexer (NewQuadDecoder (\<lambda>r. r) [eof_token] FormatNQ))))
       = Return eof_token"
proof -
  let ?d = "NewQuadDecoder (\<lambda>r. r) [eof_token] FormatNQ"
  have h1: "0 \<le> peekCount ?d" and h2: "peekCount ?d \<le> 3"
    by (simp_all add: NewQuadDecoder_def)
  have p: "fst (peek list_lexer ?d) = Return eof_token"
    by (simp add: NewQuadDecoder_def peek_def)
  from peek_does_not_consume [OF h1 h2, of list_lexer] p
  have "fst (next' list_lexer (snd (peek list_lexer ?d))) = Return eof_token"
    by auto
  with h1 h2 p show ?thesis by blast
qed

text \<open>
  Claim C5, as the code has it. One token of lookahead is what the buffer holds: after a
  \<^verbatim>\<open>peek\<close> on a new decoder one token is buffered, and the following \<^verbatim>\<open>next\<close>
  returns it without touching the lexer; and after any sequence of \<^verbatim>\<open>peek\<close> and
  \<^verbatim>\<open>next\<close> calls on a new decoder at most one token is buffered, and slots 1 and 2
  of the token array still hold the zero token: only slot 0 is used.
\<close>

theorem one_token_lookahead:
  "(\<exists>t d1 d2. run_ops nt [OpPeek] (NewQuadDecoder nl r f) = (Return [t], d1)
        \<and> t = fst (nt (nl r)) \<and> peekCount d1 = 1
        \<and> next' nt d1 = (Return t, d2) \<and> l d2 = l d1 \<and> peekCount d2 = 0)
   \<and> (\<forall>bs. peekCount (snd (run_ops nt bs (NewQuadDecoder nl r f))) \<le> 1)
   \<and> (\<forall>bs. slot1 (tokens (snd (run_ops nt bs (NewQuadDecoder nl r f)))) = zero_token
          \<and> slot2 (tokens (snd (run_ops nt bs (NewQuadDecoder nl r f)))) = zero_token)"
proof (intro conjI)
  show "\<exists>t d1 d2. run_ops nt [OpPeek] (NewQuadDecoder nl r f) = (Return [t], d1)
        \<and> t = fst (nt (nl r)) \<and> peekCount d1 = 1
        \<and> next' nt d1 = (Return t, d2) \<and> l d2 = l d1 \<and> peekCount d2 = 0"
    by (auto simp: NewQuadDecoder_def peek_def next'_def Let_def split: prod.splits)
  show "\<forall>bs. peekCount (snd (run_ops nt bs (NewQuadDecoder nl r f))) \<le> 1"
    by (simp add: run_ops_new_peekCount)
  show "\<forall>bs. slot1 (tokens (snd (run_ops nt bs (NewQuadDecoder nl r f)))) = zero_token
          \<and> slot2 (tokens (snd (run_ops nt bs (NewQuadDecoder nl r f)))) = zero_token"
    by (simp add: run_ops_new_slots)
qed

text \<open>
  Claim C5, as stated, fails: no sequence of \<^verbatim>\<open>peek\<close> and \<^verbatim>\<open>next\<close> calls on a new
  decoder, over any lexer, leaves three tokens buffered.
\<close>

theorem three_token_lookahead_counterexample:
  "\<not> (\<exists>(nt :: token list \<Rightarrow> token \<times> token list) (nl :: token list \<Rightarrow> token list) r f bs.
        peekCount (snd (run_ops nt bs (NewQuadDecoder nl r f))) = 3)"
proof
  assume "\<exists>(nt :: token list \<Rightarrow> token \<times> token list) (nl :: token list \<Rightarrow> token list) r f bs.
        peekCount (snd (run_ops nt bs (NewQuadDecoder nl r f))) = 3"
  then obtain nt :: "token list \<Rightarrow> token \<times> token list" and nl :: "token list \<Rightarrow> token list"
    and r f bs
    where three: "peekCount (snd (run_ops nt bs (NewQuadDecoder nl r f))) = 3"
    by blast
  have "peekCount (snd (run_ops nt bs (NewQuadDecoder nl r f))) \<le> 1"
    by (rule run_ops_new_peekCount)
  with three show False by simp
qed

text \<open>
  Claim C10. A new decoder has \<^verbatim>\<open>peekCount\<close> 0; and from every decoder state with
  \<^verbatim>\<open>peekCount\<close> between 0 and 1, every sequence of \<^verbatim>\<open>peek\<close> and \<^verbatim>\<open>next\<close> calls
  runs without a panic, returns one token per call, ends with \<^verbatim>\<open>peekCount\<close> between
  0 and 1 and leaves slots 1 and 2 of the token array as they were.
\<close>

theorem peekCount_invariant:
  "peekCount (NewQuadDecoder nl r f) = 0
   \<and> (\<forall>d bs. 0 \<le> peekCount d \<and> peekCount d \<le> 1 \<longrightarrow>
        (\<exists>ts d1. run_ops nt bs d = (Return ts, d1) \<and> length ts = length bs
           \<and> 0 \<le> peekCount d1 \<and> peekCount d1 \<le> 1
           \<and> slot1 (tokens d1) = slot1 (tokens d) \<and> slot2 (tokens d1) = slot2 (tokens d)))"
proof (intro conjI allI impI)
  show "peekCount (NewQuadDecoder nl r f) = 0"
    by (rule new_decoder_peekCount)
next
  fix d :: "'c QuadDecoder" and bs
  assume "0 \<le> peekCount d \<and> peekCount d \<le> 1"
  then have "0 \<le> peekCount d" and "peekCount d \<le> 1" by simp_all
  from run_ops_inv [OF this, of nt bs]
  show "\<exists>ts d1. run_ops nt bs d = (Return ts, d1) \<and> length ts = length bs
           \<and> 0 \<le> peekCount d1 \<and> peekCount d1 \<le> 1
           \<and> slot1 (tokens d1) = slot1 (tokens d) \<and> slot2 (tokens d1) = slot2 (tokens d)"
    by blast
qed

theorem peekCount_invariant_witness:
  "0 \<le> peekCount (NewQuadDecoder (\<lambda>r. r) [eof_token] FormatNQ)
   \<and> peekCount (NewQuadDecoder (\<lambda>r. r) [eof_token] FormatNQ) \<le> 1
   \<and> (\<exists>ts d1. run_ops list_lexer [OpPeek, OpPeek, OpNext, OpNext]
                 (NewQuadDecoder (\<lambda>r. r) [eof_token] FormatNQ) = (Return ts, d1)
        \<and> length ts = 4 \<and> 0 \<le> peekCount d1 \<and> peekCount d1 \<le> 1
        \<and> slot1 (tokens d1) = zero_token \<and> slot2 (tokens d1) = zero_token)"
proof -
  let ?d = "NewQuadDecoder (\<lambda>r. r) [eof_token] FormatNQ"
  have h: "0 \<le> peekCount ?d \<and> peekCount ?d \<le> 1"
    by (simp add: NewQuadDecoder_def)
  have s: "slot1 (tokens ?d) = zero_token" "slot2 (tokens ?d) = zero_token"
    by (simp_all add: NewQuadDecoder_def)
  from peekCount_invariant [of "\<lambda>r. r" "[eof_token]" FormatNQ list_lexer] h
  obtain ts d1 where run: "run_ops list_lexer [OpPeek, OpPeek, OpNext, OpNext] ?d = (Return ts, d1)"
    and len: "length ts = length [OpPeek, OpPeek, OpNext, OpNext]"
    and pc: "0 \<le> peekCount d1" "peekCount d1 \<le> 1"
    and keep: "slot1 (tokens d1) = slot1 (tokens ?d)" "slot2 (tokens d1) = slot2 (tokens ?d)"
    by blast
  from len have len4: "length ts = 4" by simp
  from keep s have z: "slot1 (tokens d1) = zero_token" "slot2 (tokens d1) = zero_token"
    by simp_all
  from h run len4 pc z show ?thesis by blast
qed

section \<open>DecodeAll\<close>

lemma decoded_length: "decoded P n d = Some (qs, d1) \<Longrightarrow> length qs = n"
proof (induction n arbitrary: d qs)
  case 0
  then show ?case by simp
next
  case (Suc n)
  then show ?case
    by (auto split: prod.splits result.splits option.splits)
qed

lemma DecodeAll_loop_fault:
  "decoded P n d = Some (qs, d1) \<Longrightarrow> Decode P d1 = (Return (q, Some e), d2) \<Longrightarrow> e \<noteq> io_EOF
   \<Longrightarrow> DecodeAll_loop P acc d = Some (Return ([], Some e), d2)"
proof (induction n arbitrary: d qs acc)
  case 0
  then show ?case
    by (subst DecodeAll_loop.simps) simp
next
  case (Suc n)
  from Suc.prems(1) obtain q0 d0 qs0 where
    step: "Decode P d = (Return (q0, None), d0)" and rest: "decoded P n d0 = Some (qs0, d1)"
    by (auto split: prod.splits result.splits option.splits)
  have "DecodeAll_loop P acc d = DecodeAll_loop P (acc @ [q0]) d0"
    using step by (subst DecodeAll_loop.simps) simp
  also have "\<dots> = Some (Return ([], Some e), d2)"
    using Suc.IH [OF rest Suc.prems(2) Suc.prems(3)] .
  finally show ?case .
qed

lemma DecodeAll_loop_eof:
  "decoded P n d = Some (qs, d1) \<Longrightarrow> Decode P d1 = (Return (q, Some io_EOF), d2)
   \<Longrightarrow> DecodeAll_loop P acc d = Some (Return (acc @ qs, None), d2)"
proof (induction n arbitrary: d qs acc)
  case 0
  then show ?case
    by (subst DecodeAll_loop.simps) simp
next
  case (Suc n)
  from Suc.prems(1) obtain q0 d0 qs0 where
    step: "Decode P d = (Return (q0, None), d0)" and rest: "decoded P n d0 = Some (qs0, d1)"
    and qs: "qs = q0 # qs0"
    by (auto split: prod.splits result.splits option.splits)
  have "DecodeAll_loop P acc d = DecodeAll_loop P (acc @ [q0]) d0"
    using step by (subst DecodeAll_loop.simps) simp
  also have "\<dots> = Some (Return ((acc @ [q0]) @ qs0, None), d2)"
    using Suc.IH [OF rest Suc.prems(2)] .
  finally show ?case using qs by simp
qed

text \<open>
  Claim C1. When the first \<open>k\<close> calls of \<^verbatim>\<open>Decode\<close> each return a quad and the
  next call returns an error other than \<^verbatim>\<open>io.EOF\<close>, \<^verbatim>\<open>DecodeAll\<close> returns
  the nil slice and that error: the \<open>k\<close> quads are dropped, whatever \<open>k\<close> is.
\<close>

theorem DecodeAll_fault_discards:
  assumes "decoded parse k d = Some (qs, d1)"
    and "Decode parse d1 = (Return (q, Some e), d2)"
    and "e \<noteq> io_EOF"
  shows "DecodeAll parse d = Some (Return ([], Some e), d2)"
  unfolding DecodeAll_def using assms by (rule DecodeAll_loop_fault)

theorem DecodeAll_fault_discards_witness:
  "decoded replay 2 [(quad_a, None), (quad_b, None), (zero_Quad, Some syntax_fault), (quad_a, None)]
     = Some ([quad_a, quad_b], [(zero_Quad, Some syntax_fault), (quad_a, None)])
   \<and> Decode replay [(zero_Quad, Some syntax_fault), (quad_a, None)]
     = (Return (zero_Quad, Some syntax_fault), [(quad_a, None)])
   \<and> syntax_fault \<noteq> io_EOF
   \<and> DecodeAll replay [(quad_a, None), (quad_b, None), (zero_Quad, Some syntax_fault), (quad_a, None)]
     = Some (Return ([], Some syntax_fault), [(quad_a, None)])"
proof -
  have h1: "decoded replay 2 [(quad_a, None), (quad_b, None), (zero_Quad, Some syntax_fault), (quad_a, None)]
     = Some ([quad_a, quad_b], [(zero_Quad, Some syntax_fault), (quad_a, None)])"
    by (simp add: numeral_2_eq_2 Decode_def)
  have h2: "Decode replay [(zero_Quad, Some syntax_fault), (quad_a, None)]
     = (Return (zero_Quad, Some syntax_fault), [(quad_a, None)])"
    by (simp add: Decode_def)
  have h3: "syntax_fault \<noteq> io_EOF"
    by (simp add: syntax_fault_def)
  from DecodeAll_fault_discards [OF h1 h2 h3] h1 h2 h3 show ?thesis by blast
qed

text \<open>
  Claim C2. When the first \<open>n\<close> calls of \<^verbatim>\<open>Decode\<close> each return a quad and the
  next call returns \<^verbatim>\<open>io.EOF\<close>, \<^verbatim>\<open>DecodeAll\<close> returns exactly those \<open>n\<close>
  quads, in the order of the calls, and no error.
\<close>

theorem DecodeAll_returns_all:
  assumes "decoded parse n d = Some (qs, d1)"
    and "Decode parse d1 = (Return (q, Some io_EOF), d2)"
  shows "DecodeAll parse d = Some (Return (qs, None), d2) \<and> length qs = n"
  unfolding DecodeAll_def
  using DecodeAll_loop_eof [OF assms, of "[]"] decoded_length [OF assms(1)] by simp

theorem DecodeAll_returns_all_witness:
  "decoded replay 2 [(quad_a, None), (quad_b, None)] = Some ([quad_a, quad_b], [])
   \<and> Decode replay [] = (Return (zero_Quad, Some io_EOF), [])
   \<and> DecodeAll replay [(quad_a, None), (quad_b, None)] = Some (Return ([quad_a, quad_b], None), [])
   \<and> length [quad_a, quad_b] = 2"
proof -
  have h1: "decoded replay 2 [(quad_a, None), (quad_b, None)] = Some ([quad_a, quad_b], [])"
    by (simp add: numeral_2_eq_2 Decode_def)
  have h2: "Decode replay [] = (Return (zero_Quad, Some io_EOF), [])"
    by (simp add: Decode_def)
  from DecodeAll_returns_all [OF h1 h2] h1 h2 show ?thesis by blast
qed

lemma Sprintf_string: "Sprintf (\<lambda>s. s) ''%s'' [fm] = fm"
  by simp

lemma errorf_panics: "errorf fm args = Panic (ErrorValue (Errorf fm args))"
  by (simp add: errorf_def)

section \<open>Fault messages and construction\<close>

lemma syntax_error_message_s:
  "error_message str (Errorf ''%d:%d: syntax error: %s'' [OInt a, OInt b, OString s])
     = string_of_int a @ '':'' @ string_of_int b @ '': syntax error: '' @ s"
  by simp

lemma syntax_error_message_v:
  "error_message str (Errorf ''%d:%d: syntax error: %v'' [OInt a, OInt b, OString s])
     = string_of_int a @ '':'' @ string_of_int b @ '': syntax error: '' @ s"
  by simp

lemma unexpected_message:
  "error_message str (Errorf ''%d:%d unexpected %v as %s''
       [OInt a, OInt b, OTokenType k, OString c])
     = string_of_int a @ '':'' @ string_of_int b @ '' unexpected '' @ str (OTokenType k)
         @ '' as '' @ c"
  by simp

lemma expect1As_cases:
  assumes "fst (next' nt d) = Return t"
  shows "fst (expect1As nt c expected d) =
     (if typ' t = expected then Return t
      else if typ' t = tokenError then
        Panic (ErrorValue (Errorf ''%d:%d: syntax error: %s''
          [OInt (line t), OInt (col t), OString (text' t)]))
      else Panic (ErrorValue (Errorf ''%d:%d unexpected %v as %s''
          [OInt (line t), OInt (col t), OTokenType (typ' t), OString c])))"
  using assms
  by (cases "next' nt d") (simp add: expect1As_def errorf_panics unexpected_def)

lemma expectAs_cases:
  assumes "fst (next' nt d) = Return t"
  shows "fst (expectAs nt c expected d) =
     (if one_of (typ' t) expected then Return t
      else if typ' t = tokenError then
        Panic (ErrorValue (Errorf ''%d:%d: syntax error: %v''
          [OInt (line t), OInt (col t), OString (text' t)]))
      else Panic (ErrorValue (Errorf ''%d:%d unexpected %v as %s''
          [OInt (line t), OInt (col t), OTokenType (typ' t), OString c])))"
  using assms
  by (cases "next' nt d") (simp add: expectAs_def errorf_panics unexpected_def)

text \<open>
  Claim C7. Let \<^verbatim>\<open>next\<close> return the token \<open>t\<close>. \<^verbatim>\<open>expect1As\<close> and
  \<^verbatim>\<open>expectAs\<close> return \<open>t\<close> when its type is expected. Otherwise they panic with an
  error whose message starts with the line and the column of \<open>t\<close>: for a token of type
  \<^verbatim>\<open>tokenError\<close> it goes on with \<^verbatim>\<open>: syntax error: \<close> and the token's text, for
  any other token with \<^verbatim>\<open> unexpected \<close>, the token's type, \<^verbatim>\<open> as \<close> and the
  parsing context.
\<close>

theorem expectation_fault_message:
  assumes "fst (next' nt d) = Return t"
  shows "(typ' t = expected \<longrightarrow> fst (expect1As nt c expected d) = Return t)
    \<and> (typ' t \<noteq> expected \<longrightarrow>
         (\<exists>e. fst (expect1As nt c expected d) = Panic (ErrorValue e)
            \<and> error_message str e =
                (if typ' t = tokenError
                 then string_of_int (line t) @ '':'' @ string_of_int (col t)
                        @ '': syntax error: '' @ text' t
                 else string_of_int (line t) @ '':'' @ string_of_int (col t)
                        @ '' unexpected '' @ str (OTokenType (typ' t)) @ '' as '' @ c)))
    \<and> (one_of (typ' t) expecteds \<longrightarrow> fst (expectAs nt c expecteds d) = Return t)
    \<and> (\<not> one_of (typ' t) expecteds \<longrightarrow>
         (\<exists>e. fst (expectAs nt c expecteds d) = Panic (ErrorValue e)
            \<and> error_message str e =
                (if typ' t = tokenError
                 then string_of_int (line t) @ '':'' @ string_of_int (col t)
                        @ '': syntax error: '' @ text' t
                 else string_of_int (line t) @ '':'' @ string_of_int (col t)
                        @ '' unexpected '' @ str (OTokenType (typ' t)) @ '' as '' @ c)))"
proof (intro conjI impI)
  assume "typ' t = expected"
  then show "fst (expect1As nt c expected d) = Return t"
    by (simp add: expect1As_cases [OF assms])
next
  assume "typ' t \<noteq> expected"
  then show "\<exists>e. fst (expect1As nt c expected d) = Panic (ErrorValue e)
            \<and> error_message str e =
                (if typ' t = tokenError
                 then string_of_int (line t) @ '':'' @ string_of_int (col t)
                        @ '': syntax error: '' @ text' t
                 else string_of_int (line t) @ '':'' @ string_of_int (col t)
                        @ '' unexpected '' @ str (OTokenType (typ' t)) @ '' as '' @ c)"
    using syntax_error_message_s [of str "line t" "col t" "text' t"]
      unexpected_message [of str "line t" "col t" "typ' t" c]
    by (simp only: expect1As_cases [OF assms] if_False) (cases "typ' t = tokenError"; simp)
next
  assume "one_of (typ' t) expecteds"
  then show "fst (expectAs nt c expecteds d) = Return t"
    by (simp add: expectAs_cases [OF assms])
next
  assume "\<not> one_of (typ' t) expecteds"
  then show "\<exists>e. fst (expectAs nt c expecteds d) = Panic (ErrorValue e)
            \<and> error_message str e =
                (if typ' t = tokenError
                 then string_of_int (line t) @ '':'' @ string_of_int (col t)
                        @ '': syntax error: '' @ text' t
                 else string_of_int (line t) @ '':'' @ string_of_int (col t)
                        @ '' unexpected '' @ str (OTokenType (typ' t)) @ '' as '' @ c)"
    using syntax_error_message_v [of str "line t" "col t" "text' t"]
      unexpected_message [of str "line t" "col t" "typ' t" c]
    by (simp only: expectAs_cases [OF assms] if_False) (cases "typ' t = tokenError"; simp)
qed

lemma string_of_int_3: "string_of_int 3 = ''3''"
  by (simp add: string_of_int_def digit_char_def)

lemma string_of_int_7: "string_of_int 7 = ''7''"
  by (simp add: string_of_int_def digit_char_def)

theorem expectation_fault_message_witness:
  "fst (next' list_lexer (NewQuadDecoder (\<lambda>r. r) [dot_token] FormatNQ)) = Return dot_token
   \<and> typ' dot_token \<noteq> tokenIRI
   \<and> \<not> one_of (typ' dot_token) [tokenIRI, tokenBNode]
   \<and> (\<exists>e. fst (expect1As list_lexer ''predicate'' tokenIRI
               (NewQuadDecoder (\<lambda>r. r) [dot_token] FormatNQ)) = Panic (ErrorValue e)
        \<and> error_message kind_name e = ''3:7 unexpected dot as predicate'')
   \<and> (\<exists>e. fst (expectAs list_lexer ''subject'' [tokenIRI, tokenBNode]
               (NewQuadDecoder (\<lambda>r. r) [dot_token] FormatNQ)) = Panic (ErrorValue e)
        \<and> error_message kind_name e = ''3:7 unexpected dot as subject'')"
proof -
  let ?d = "NewQuadDecoder (\<lambda>r. r) [dot_token] FormatNQ"
  have h: "fst (next' list_lexer ?d) = Return dot_token"
    by (simp add: NewQuadDecoder_def next'_def)
  have k: "typ' dot_token = tokenDot" "line dot_token = 3" "col dot_token = 7"
    by (simp_all add: dot_token_def)
  have n1: "typ' dot_token \<noteq> tokenIRI" and n2: "\<not> one_of (typ' dot_token) [tokenIRI, tokenBNode]"
    by (simp_all add: k)
  have m: "kind_name (OTokenType tokenDot) = ''dot''"
    by (simp add: kind_name_def)
  from expectation_fault_message [OF h, of tokenIRI "''predicate''" kind_name "[tokenIRI, tokenBNode]"] n1
  have a: "\<exists>e. fst (expect1As list_lexer ''predicate'' tokenIRI ?d) = Panic (ErrorValue e)
        \<and> error_message kind_name e = ''3:7 unexpected dot as predicate''"
    by (simp add: k m string_of_int_3 string_of_int_7)
  from expectation_fault_message [OF h, of tokenIRI "''subject''" kind_name "[tokenIRI, tokenBNode]"] n2
  have b: "\<exists>e. fst (expectAs list_lexer ''subject'' [tokenIRI, tokenBNode] ?d) = Panic (ErrorValue e)
        \<and> error_message kind_name e = ''3:7 unexpected dot as subject''"
    by (simp add: k m string_of_int_3 string_of_int_7)
  from h n1 n2 a b show ?thesis by blast
qed

text \<open>
  Claim C6. \<^verbatim>\<open>NewTripleDecoder\<close> panics at construction for the format it has no
  parser for and returns a decoder for the three others. \<^verbatim>\<open>NewQuadDecoder\<close> checks
  nothing: asked for Turtle, it returns a decoder that records that format, although the
  quad decoder parses N-Quads only.
\<close>

theorem NewQuadDecoder_checks_no_format:
  "NewQuadDecoder nl r FormatTTL =
     \<lparr>l = nl r, format = FormatTTL, DefaultGraph = Blank ''_:defaultGraph'',
      tokens = Array3 zero_token zero_token zero_token, peekCount = 0\<rparr>
   \<and> NewTripleDecoder r FormatNQ =
       Panic (ErrorValue
         (Errorf ''Decoder for serialization format %s not implemented'' [OFormat FormatNQ]))
   \<and> NewTripleDecoder r FormatNT = Return (NTDecoder r)
   \<and> NewTripleDecoder r FormatRDFXML = Return (RDFXMLDecoder r)
   \<and> NewTripleDecoder r FormatTTL = Return (TTLDecoder r)"
  by (simp add: NewQuadDecoder_def NewTripleDecoder_def)

section \<open>The parsing routine on a token stream\<close>


lemma index3_0: "index3 a 0 = Return (slot0 a)"
  by (cases a) simp

lemma slot0_assign0: "slot0 (assign0 a v) = v"
  by (cases a) simp

lemma peek_list:
  assumes "0 \<le> peekCount d" and "peekCount d \<le> 1"
  shows "\<exists>d1. peek list_lexer d = (Return (case pending d of [] \<Rightarrow> eof_token | t # ts \<Rightarrow> t), d1)
           \<and> peekCount d1 = 1
           \<and> pending d1 = (case pending d of [] \<Rightarrow> [eof_token] | t # ts \<Rightarrow> t # ts)"
proof (cases "peekCount d > 0")
  case True
  with assms have "peekCount d = 1" by simp
  then show ?thesis
    by (simp add: peek_def pending_def index3_0)
next
  case False
  with assms have "peekCount d = 0" by simp
  then show ?thesis
    by (cases "l d") (simp_all add: peek_def pending_def index3_0 slot0_assign0)
qed

lemma next_buffered:
  assumes "peekCount d = 1"
  shows "\<exists>d2. next' list_lexer d = (Return (slot0 (tokens d)), d2)
           \<and> peekCount d2 = 0 \<and> pending d2 = l d"
  using assms by (simp add: next'_def pending_def index3_0)

lemma pending_buffered: "peekCount d = 1 \<Longrightarrow> pending d = slot0 (tokens d) # l d"
  by (simp add: pending_def)

lemma skip_space_pending:
  "pending d = xs \<Longrightarrow> 0 \<le> peekCount d \<Longrightarrow> peekCount d \<le> 1 \<Longrightarrow>
   \<exists>d1. skip_space d = (Return (), d1) \<and> peekCount d1 = 1
      \<and> pending d1 = (case dropWhile (\<lambda>t. typ' t = tokenSpace) xs of
                        [] \<Rightarrow> [eof_token] | t # ts \<Rightarrow> t # ts)"
proof (induction xs arbitrary: d)
  case Nil
  from peek_list [OF Nil.prems(2) Nil.prems(3)] Nil.prems(1)
  obtain d1 where pk: "peek list_lexer d = (Return eof_token, d1)"
    and pc: "peekCount d1 = 1" and pd: "pending d1 = [eof_token]"
    by auto
  have "skip_space d = (Return (), d1)"
    using pk by (subst skip_space.simps) (simp add: eof_token_def)
  with pc pd show ?case by simp
next
  case (Cons x xs)
  from peek_list [OF Cons.prems(2) Cons.prems(3)] Cons.prems(1)
  obtain d1 where pk: "peek list_lexer d = (Return x, d1)"
    and pc: "peekCount d1 = 1" and pd: "pending d1 = x # xs"
    by auto
  show ?case
  proof (cases "typ' x = tokenSpace")
    case True
    from next_buffered [OF pc] obtain d2 where
      nx: "next' list_lexer d1 = (Return (slot0 (tokens d1)), d2)"
      and pc2: "peekCount d2 = 0" and pd2: "pending d2 = l d1"
      by blast
    from pd pending_buffered [OF pc] have "l d1 = xs" by simp
    with pd2 have pd2': "pending d2 = xs" by simp
    from pc2 have b: "0 \<le> peekCount d2" "peekCount d2 \<le> 1" by simp_all
    from Cons.IH [OF pd2' b] obtain d3 where
      sk: "skip_space d2 = (Return (), d3)" and pc3: "peekCount d3 = 1"
      and pd3: "pending d3 = (case dropWhile (\<lambda>t. typ' t = tokenSpace) xs of
                        [] \<Rightarrow> [eof_token] | t # ts \<Rightarrow> t # ts)"
      by blast
    have "skip_space d = skip_space d2"
      using pk nx True by (subst skip_space.simps) simp
    with sk pc3 pd3 True show ?thesis by simp
  next
    case False
    have "skip_space d = (Return (), d1)"
      using pk False by (subst skip_space.simps) simp
    with pc pd False show ?thesis by simp
  qed
qed

lemma first_token_not_space: "typ' (first_token ts) \<noteq> tokenSpace"
proof (cases "dropWhile (\<lambda>t. typ' t = tokenSpace) ts")
  case Nil
  then show ?thesis
    by (simp add: first_token_def eof_token_def del: dropWhile_eq_Nil_conv)
next
  case (Cons t rest)
  then have "\<not> (typ' t = tokenSpace)"
    using hd_dropWhile [of "\<lambda>t. typ' t = tokenSpace" ts] by simp
  with Cons show ?thesis by (simp add: first_token_def)
qed

lemma skip_then_peek:
  assumes "0 \<le> peekCount d" and "peekCount d \<le> 1"
  shows "\<exists>d1. skip_space d = (Return (), d1) \<and> peekCount d1 = 1
           \<and> slot0 (tokens d1) = first_token (pending d)
           \<and> peek list_lexer d1 = (Return (first_token (pending d)), d1)"
proof -
  from skip_space_pending [OF refl assms] obtain d1 where
    sk: "skip_space d = (Return (), d1)" and pc: "peekCount d1 = 1"
    and pd: "pending d1 = (case dropWhile (\<lambda>t. typ' t = tokenSpace) (pending d) of
                        [] \<Rightarrow> [eof_token] | t # ts \<Rightarrow> t # ts)"
    by blast
  from pd pending_buffered [OF pc] have s0: "slot0 (tokens d1) = first_token (pending d)"
    by (cases "dropWhile (\<lambda>t. typ' t = tokenSpace) (pending d)")
      (simp_all add: first_token_def del: dropWhile_eq_Nil_conv)
  have "peek list_lexer d1 = (Return (slot0 (tokens d1)), d1)"
    using pc by (simp add: peek_def index3_0)
  with sk pc s0 show ?thesis by simp
qed

lemma index3_no_error_panic: "index3 a i = Panic p \<Longrightarrow> p \<noteq> ErrorValue e"
  by (cases a) (auto split: if_splits)

lemma next_no_error_panic: "next' nt d = (Panic p, d1) \<Longrightarrow> p \<noteq> ErrorValue e"
  by (auto simp: next'_def Let_def dest: index3_no_error_panic split: if_splits prod.splits)

lemma peek_no_error_panic: "peek nt d = (Panic p, d1) \<Longrightarrow> p \<noteq> ErrorValue e"
  by (auto simp: peek_def Let_def index3_assign0 dest: index3_no_error_panic
      split: if_splits prod.splits)

lemma expect1As_no_EOF_panic:
  "expect1As nt c k d = (Panic p, d1) \<Longrightarrow> p \<noteq> ErrorValue io_EOF"
  by (auto simp: expect1As_def errorf_panics unexpected_def dest: next_no_error_panic
      split: prod.splits result.splits if_splits)

lemma expectAs_no_EOF_panic:
  "expectAs nt c ks d = (Panic p, d1) \<Longrightarrow> p \<noteq> ErrorValue io_EOF"
  by (auto simp: expectAs_def errorf_panics unexpected_def dest: next_no_error_panic
      split: prod.splits result.splits if_splits)

lemma parse_object_no_EOF_panic:
  "parse_object nt d = (Panic p, d1) \<Longrightarrow> p \<noteq> ErrorValue io_EOF"
  by (auto simp: parse_object_def
      dest: next_no_error_panic peek_no_error_panic expect1As_no_EOF_panic expectAs_no_EOF_panic
      split: prod.splits result.splits if_splits)

lemma parse_graph_no_EOF_panic:
  "parse_graph nt d = (Panic p, d1) \<Longrightarrow> p \<noteq> ErrorValue io_EOF"
  by (auto simp: parse_graph_def
      dest: next_no_error_panic peek_no_error_panic
      split: prod.splits result.splits if_splits)

lemma parse_statement_result:
  "fst (parse_statement nt q d) = Return None
   \<or> (\<exists>p. fst (parse_statement nt q d) = Panic p \<and> p \<noteq> ErrorValue io_EOF)"
  by (auto simp: parse_statement_def Let_def
      dest: expect1As_no_EOF_panic expectAs_no_EOF_panic parse_object_no_EOF_panic
        parse_graph_no_EOF_panic
      split: prod.splits result.splits)

lemma deferred_recover_EOF:
  "(\<exists>q. fst (deferred_recover out) = Return (q, Some io_EOF))
     = (fst out = Return (Some io_EOF) \<or> fst out = Panic (ErrorValue io_EOF))"
  by (cases out)
    (auto simp: deferred_recover_def recover_def
      split: result.splits option.splits panic_value.splits)

lemma parseNQ_body_skipped:
  assumes "0 \<le> peekCount d" and "peekCount d \<le> 1"
  shows "\<exists>d1. peekCount d1 = 1 \<and> slot0 (tokens d1) = first_token (pending d)
           \<and> parseNQ_body d =
               (if typ' (first_token (pending d)) = tokenEOF
                then (Return (Some io_EOF), zero_Quad, d1)
                else parse_statement list_lexer zero_Quad d1)"
proof -
  from skip_then_peek [OF assms] obtain d1 where
    sk: "skip_space d = (Return (), d1)" and pc: "peekCount d1 = 1"
    and s0: "slot0 (tokens d1) = first_token (pending d)"
    and pk: "peek list_lexer d1 = (Return (first_token (pending d)), d1)"
    by blast
  have "parseNQ_body d =
               (if typ' (first_token (pending d)) = tokenEOF
                then (Return (Some io_EOF), zero_Quad, d1)
                else parse_statement list_lexer zero_Quad d1)"
    using sk pk by (simp add: parseNQ_body_def)
  with pc s0 show ?thesis by blast
qed

lemma parseNQ_body_EOF:
  assumes "0 \<le> peekCount d" and "peekCount d \<le> 1"
  shows "(fst (parseNQ_body d) = Return (Some io_EOF)
            \<or> fst (parseNQ_body d) = Panic (ErrorValue io_EOF))
         = exhausted (pending d)"
proof -
  from parseNQ_body_skipped [OF assms] obtain d1 where
    body: "parseNQ_body d =
               (if typ' (first_token (pending d)) = tokenEOF
                then (Return (Some io_EOF), zero_Quad, d1)
                else parse_statement list_lexer zero_Quad d1)"
    by blast
  show ?thesis
  proof (cases "typ' (first_token (pending d)) = tokenEOF")
    case True
    with body show ?thesis by (simp add: exhausted_def)
  next
    case False
    with body parse_statement_result [of list_lexer zero_Quad d1] show ?thesis
      by (auto simp: exhausted_def)
  qed
qed

lemma Decode_parseNQ_EOF:
  assumes "0 \<le> peekCount d" and "peekCount d \<le> 1"
  shows "(\<exists>q. fst (Decode parseNQ d) = Return (q, Some io_EOF)) = exhausted (pending d)"
  by (simp only: Decode_def parseNQ_def deferred_recover_EOF parseNQ_body_EOF [OF assms])

lemma Decode_parseNQ_exhausted:
  assumes "0 \<le> peekCount d" and "peekCount d \<le> 1" and "exhausted (pending d)"
  shows "\<exists>d1. Decode parseNQ d = (Return (zero_Quad, Some io_EOF), d1)"
proof -
  from parseNQ_body_skipped [OF assms(1) assms(2)] assms(3) obtain d1 where
    "parseNQ_body d = (Return (Some io_EOF), zero_Quad, d1)"
    by (auto simp: exhausted_def)
  then show ?thesis
    by (simp add: Decode_def parseNQ_def deferred_recover_def recover_def)
qed

lemma pending_new: "pending (NewQuadDecoder nl r f) = nl r"
  by (simp add: pending_def NewQuadDecoder_def)

text \<open>
  Claim C9. Take a new decoder over a token stream. The first \<^verbatim>\<open>Decode\<close> returns
  \<^verbatim>\<open>io.EOF\<close> exactly when the stream is exhausted: whitespace and comments aside, it
  is empty or end-of-input comes first. On an exhausted stream, the empty one among them,
  \<^verbatim>\<open>Decode\<close> returns the zero quad with \<^verbatim>\<open>io.EOF\<close> and nothing panics, and
  \<^verbatim>\<open>DecodeAll\<close> returns no quads and no error. In every later state of the decoder, with
  at most one token buffered, \<^verbatim>\<open>Decode\<close> returns \<^verbatim>\<open>io.EOF\<close> exactly when what is left
  of the stream is exhausted.
\<close>

theorem Decode_signals_EOF:
  "((\<exists>q. fst (Decode parseNQ (NewQuadDecoder nl r f)) = Return (q, Some io_EOF))
      = exhausted (nl r))
   \<and> fst (Decode parseNQ (NewQuadDecoder (\<lambda>r. []) r f)) = Return (zero_Quad, Some io_EOF)
   \<and> (\<exists>d1. DecodeAll parseNQ (NewQuadDecoder (\<lambda>r. []) r f) = Some (Return ([], None), d1))
   \<and> (exhausted (nl r) \<longrightarrow>
        fst (Decode parseNQ (NewQuadDecoder nl r f)) = Return (zero_Quad, Some io_EOF)
        \<and> (\<exists>d1. DecodeAll parseNQ (NewQuadDecoder nl r f) = Some (Return ([], None), d1)))
   \<and> (0 \<le> peekCount d \<and> peekCount d \<le> 1 \<longrightarrow>
        ((\<exists>q. fst (Decode parseNQ d) = Return (q, Some io_EOF)) = exhausted (pending d)))"
proof -
  have new: "0 \<le> peekCount (NewQuadDecoder nl' s f)" "peekCount (NewQuadDecoder nl' s f) \<le> 1"
    for s :: 'a and nl' :: "'a \<Rightarrow> token list"
    by (simp_all add: NewQuadDecoder_def)
  have iff: "(\<exists>q. fst (Decode parseNQ (NewQuadDecoder nl r f)) = Return (q, Some io_EOF))
      = exhausted (nl r)"
    using Decode_parseNQ_EOF [of "NewQuadDecoder nl r f"] new by (simp add: pending_new)
  have ex: "fst (Decode parseNQ (NewQuadDecoder nl' r f)) = Return (zero_Quad, Some io_EOF)
        \<and> (\<exists>d1. DecodeAll parseNQ (NewQuadDecoder nl' r f) = Some (Return ([], None), d1))"
    if "exhausted (nl' r)" for nl' :: "'a \<Rightarrow> token list"
  proof -
    from that have "exhausted (pending (NewQuadDecoder nl' r f))"
      by (simp add: pending_new)
    from Decode_parseNQ_exhausted [OF new this] obtain d1 where
      dec: "Decode parseNQ (NewQuadDecoder nl' r f) = (Return (zero_Quad, Some io_EOF), d1)"
      by blast
    have "DecodeAll parseNQ (NewQuadDecoder nl' r f) = Some (Return ([], None), d1)"
      unfolding DecodeAll_def using dec by (subst DecodeAll_loop.simps) simp
    with dec show ?thesis by simp
  qed
  have empty: "exhausted ((\<lambda>r. []) r)"
    by (simp add: exhausted_def first_token_def eof_token_def)
  have general: "0 \<le> peekCount d \<and> peekCount d \<le> 1 \<longrightarrow>
        ((\<exists>q. fst (Decode parseNQ d) = Return (q, Some io_EOF)) = exhausted (pending d))"
    using Decode_parseNQ_EOF [of d] by blast
  show ?thesis
    using iff ex [of nl] ex [OF empty] general by blast
qed

theorem Decode_signals_EOF_witness:
  "exhausted [comment_token, comment_token]
   \<and> fst (Decode parseNQ (NewQuadDecoder (\<lambda>r. r) [comment_token, comment_token] FormatNQ))
       = Return (zero_Quad, Some io_EOF)
   \<and> (\<exists>d1. DecodeAll parseNQ (NewQuadDecoder (\<lambda>r. r) [comment_token, comment_token] FormatNQ)
        = Some (Return ([], None), d1))
   \<and> 0 \<le> peekCount (NewQuadDecoder (\<lambda>r. r) [comment_token, dot_token] FormatNQ)
   \<and> peekCount (NewQuadDecoder (\<lambda>r. r) [comment_token, dot_token] FormatNQ) \<le> 1
   \<and> \<not> exhausted (pending (NewQuadDecoder (\<lambda>r. r) [comment_token, dot_token] FormatNQ))
   \<and> \<not> (\<exists>q. fst (Decode parseNQ (NewQuadDecoder (\<lambda>r. r) [comment_token, dot_token] FormatNQ))
        = Return (q, Some io_EOF))"
proof -
  have h1: "exhausted ((\<lambda>r. r) [comment_token, comment_token])"
    by (simp add: exhausted_def first_token_def comment_token_def eof_token_def)
  let ?d = "NewQuadDecoder (\<lambda>r. r) [comment_token, dot_token] FormatNQ"
  have h2: "0 \<le> peekCount ?d \<and> peekCount ?d \<le> 1"
    by (simp add: NewQuadDecoder_def)
  have h3: "\<not> exhausted (pending ?d)"
    by (simp add: pending_new exhausted_def first_token_def comment_token_def dot_token_def)
  from Decode_signals_EOF [of "\<lambda>r. r" "[comment_token, comment_token]" FormatNQ ?d] h1 h2 h3
  show ?thesis by simp
qed

section \<open>Grammar violations at the boundary of Decode\<close>

lemma deferred_recover_cases:
  "deferred_recover out =
     (case out of
        (Return err, q, s) \<Rightarrow> (Return (q, err), s)
      | (Panic (RuntimeError m), q, s) \<Rightarrow> (Panic (RuntimeError m), s)
      | (Panic (ErrorValue x), q, s) \<Rightarrow> (Return (q, Some x), s)
      | (Panic (OtherValue v), q, s) \<Rightarrow> (Panic (RuntimeError ''interface conversion''), s))"
  by (simp add: deferred_recover_def recover_def
      split: prod.splits result.splits panic_value.splits)

lemma deferred_recover_no_error_panic:
  "fst (deferred_recover out) \<noteq> Panic (ErrorValue e)
   \<and> fst (deferred_recover out) \<noteq> Panic (OtherValue v)"
  by (simp add: deferred_recover_cases split: prod.splits result.splits panic_value.splits)

lemma parse_statement_subject_fault:
  assumes "peekCount d = 1" and "slot0 (tokens d) = t"
    and "typ' t \<noteq> tokenIRI" and "typ' t \<noteq> tokenBNode"
  shows "\<exists>d1. parse_statement list_lexer q d =
     (Panic (ErrorValue
        (if typ' t = tokenError
         then Errorf ''%d:%d: syntax error: %v'' [OInt (line t), OInt (col t), OString (text' t)]
         else Errorf ''%d:%d unexpected %v as %s''
                [OInt (line t), OInt (col t), OTokenType (typ' t), OString ''subject''])),
      q, d1)"
proof -
  from next_buffered [OF assms(1)] assms(2) obtain d1 where
    nx: "next' list_lexer d = (Return t, d1)"
    by auto
  have "expectAs list_lexer ''subject'' [tokenIRI, tokenBNode] d =
     (Panic (ErrorValue
        (if typ' t = tokenError
         then Errorf ''%d:%d: syntax error: %v'' [OInt (line t), OInt (col t), OString (text' t)]
         else Errorf ''%d:%d unexpected %v as %s''
                [OInt (line t), OInt (col t), OTokenType (typ' t), OString ''subject''])),
      d1)"
    using nx assms(3) assms(4) by (simp add: expectAs_def errorf_panics unexpected_def)
  then show ?thesis
    by (simp add: parse_statement_def)
qed

lemma DecodeAll_panic:
  "Decode parse d = (Panic p, d1) \<Longrightarrow> DecodeAll parse d = Some (Panic p, d1)"
  unfolding DecodeAll_def by (subst DecodeAll_loop.simps) simp

text \<open>
  Claim C3. A grammar violation is raised as a panic: \<^verbatim>\<open>errorf\<close> and
  \<^verbatim>\<open>unexpected\<close> never return, and the value they panic with is an error that is no
  runtime error. \<^verbatim>\<open>recover\<close> turns such a value into the error result, panics again
  on a runtime error, and panics with a runtime error on a value that is no error. At the
  boundary of \<^verbatim>\<open>Decode\<close>, for every body of the parsing routine run under the deferred
  \<^verbatim>\<open>recover\<close>: a normal return is passed on, a panic with an error value becomes the
  returned error, and a runtime error leaves \<^verbatim>\<open>Decode\<close> as a panic; so no panic with
  an error value ever leaves \<^verbatim>\<open>Decode\<close>. For the N-Quads routine: when the first token
  of the stream is no subject, the body of the routine is left by a panic with the fault,
  and \<^verbatim>\<open>Decode\<close> returns that fault as its error. \<^verbatim>\<open>DecodeAll\<close> does not catch a
  panic of \<^verbatim>\<open>Decode\<close>.
\<close>

theorem grammar_violation_caught_at_Decode:
  "(errorf fm args :: token result) = Panic (ErrorValue (Errorf fm args))
   \<and> (unexpected t c :: token result)
       = Panic (ErrorValue (Errorf ''%d:%d unexpected %v as %s''
           [OInt (line t), OInt (col t), OTokenType (typ' t), OString c]))
   \<and> recover None err = Return err
   \<and> recover (Some (ErrorValue e)) err = Return (Some e)
   \<and> recover (Some (RuntimeError m)) err = Panic (RuntimeError m)
   \<and> recover (Some (OtherValue v)) err = Panic (RuntimeError ''interface conversion'')
   \<and> Decode (\<lambda>s. deferred_recover (body s)) d =
       (case body d of
          (Return err1, q, s) \<Rightarrow> (Return (q, err1), s)
        | (Panic (RuntimeError m1), q, s) \<Rightarrow> (Panic (RuntimeError m1), s)
        | (Panic (ErrorValue e1), q, s) \<Rightarrow> (Return (q, Some e1), s)
        | (Panic (OtherValue v1), q, s) \<Rightarrow> (Panic (RuntimeError ''interface conversion''), s))
   \<and> Decode parseNQ d0 =
       (case parseNQ_body d0 of
          (Return err1, q, s) \<Rightarrow> (Return (q, err1), s)
        | (Panic (RuntimeError m1), q, s) \<Rightarrow> (Panic (RuntimeError m1), s)
        | (Panic (ErrorValue e1), q, s) \<Rightarrow> (Return (q, Some e1), s)
        | (Panic (OtherValue v1), q, s) \<Rightarrow> (Panic (RuntimeError ''interface conversion''), s))
   \<and> fst (Decode parseNQ d0) \<noteq> Panic (ErrorValue e)
   \<and> fst (Decode parseNQ d0) \<noteq> Panic (OtherValue v)
   \<and> (0 \<le> peekCount d0 \<and> peekCount d0 \<le> 1
        \<and> typ' (first_token (pending d0)) \<noteq> tokenEOF
        \<and> typ' (first_token (pending d0)) \<noteq> tokenIRI
        \<and> typ' (first_token (pending d0)) \<noteq> tokenBNode \<longrightarrow>
        (\<exists>x. x = (if typ' (first_token (pending d0)) = tokenError
                  then Errorf ''%d:%d: syntax error: %v''
                         [OInt (line (first_token (pending d0))),
                          OInt (col (first_token (pending d0))),
                          OString (text' (first_token (pending d0)))]
                  else Errorf ''%d:%d unexpected %v as %s''
                         [OInt (line (first_token (pending d0))),
                          OInt (col (first_token (pending d0))),
                          OTokenType (typ' (first_token (pending d0))),
                          OString ''subject''])
           \<and> fst (parseNQ_body d0) = Panic (ErrorValue x)
           \<and> fst (Decode parseNQ d0) = Return (zero_Quad, Some x)))
   \<and> (Decode parse d2 = (Panic p, d3) \<longrightarrow> DecodeAll parse d2 = Some (Panic p, d3))"
proof -
  have raised: "(errorf fm args :: token result) = Panic (ErrorValue (Errorf fm args))
     \<and> (unexpected t c :: token result)
       = Panic (ErrorValue (Errorf ''%d:%d unexpected %v as %s''
           [OInt (line t), OInt (col t), OTokenType (typ' t), OString c]))"
    by (simp add: errorf_panics unexpected_def)
  have recov: "recover None err = Return err
     \<and> recover (Some (ErrorValue e)) err = Return (Some e)
     \<and> recover (Some (RuntimeError m)) err = Panic (RuntimeError m)
     \<and> recover (Some (OtherValue v)) err = Panic (RuntimeError ''interface conversion'')"
    by (simp add: recover_def)
  have boundary: "Decode (\<lambda>s. deferred_recover (body s)) d =
       (case body d of
          (Return err1, q, s) \<Rightarrow> (Return (q, err1), s)
        | (Panic (RuntimeError m1), q, s) \<Rightarrow> (Panic (RuntimeError m1), s)
        | (Panic (ErrorValue e1), q, s) \<Rightarrow> (Return (q, Some e1), s)
        | (Panic (OtherValue v1), q, s) \<Rightarrow> (Panic (RuntimeError ''interface conversion''), s))"
    by (simp only: Decode_def deferred_recover_cases)
  have routine: "Decode parseNQ d0 =
       (case parseNQ_body d0 of
          (Return err1, q, s) \<Rightarrow> (Return (q, err1), s)
        | (Panic (RuntimeError m1), q, s) \<Rightarrow> (Panic (RuntimeError m1), s)
        | (Panic (ErrorValue e1), q, s) \<Rightarrow> (Return (q, Some e1), s)
        | (Panic (OtherValue v1), q, s) \<Rightarrow> (Panic (RuntimeError ''interface conversion''), s))"
    by (simp only: Decode_def parseNQ_def deferred_recover_cases)
  have nopanic: "fst (Decode parseNQ d0) \<noteq> Panic (ErrorValue e)
     \<and> fst (Decode parseNQ d0) \<noteq> Panic (OtherValue v)"
    using deferred_recover_no_error_panic [of "parseNQ_body d0" e v]
    by (simp add: Decode_def parseNQ_def)
  have fault: "\<exists>x. x = (if typ' (first_token (pending d0)) = tokenError
                  then Errorf ''%d:%d: syntax error: %v''
                         [OInt (line (first_token (pending d0))),
                          OInt (col (first_token (pending d0))),
                          OString (text' (first_token (pending d0)))]
                  else Errorf ''%d:%d unexpected %v as %s''
                         [OInt (line (first_token (pending d0))),
                          OInt (col (first_token (pending d0))),
                          OTokenType (typ' (first_token (pending d0))),
                          OString ''subject''])
           \<and> fst (parseNQ_body d0) = Panic (ErrorValue x)
           \<and> fst (Decode parseNQ d0) = Return (zero_Quad, Some x)"
    if inv: "0 \<le> peekCount d0" "peekCount d0 \<le> 1"
      and kind: "typ' (first_token (pending d0)) \<noteq> tokenEOF"
        "typ' (first_token (pending d0)) \<noteq> tokenIRI"
        "typ' (first_token (pending d0)) \<noteq> tokenBNode"
  proof -
    from parseNQ_body_skipped [OF inv] kind(1) obtain d1 where
      pc: "peekCount d1 = 1" and s0: "slot0 (tokens d1) = first_token (pending d0)"
      and body: "parseNQ_body d0 = parse_statement list_lexer zero_Quad d1"
      by auto
    from parse_statement_subject_fault [OF pc s0 kind(2) kind(3), of zero_Quad] body
    obtain d4 where
      out: "parseNQ_body d0 =
        (Panic (ErrorValue
          (if typ' (first_token (pending d0)) = tokenError
                  then Errorf ''%d:%d: syntax error: %v''
                         [OInt (line (first_token (pending d0))),
                          OInt (col (first_token (pending d0))),
                          OString (text' (first_token (pending d0)))]
                  else Errorf ''%d:%d unexpected %v as %s''
                         [OInt (line (first_token (pending d0))),
                          OInt (col (first_token (pending d0))),
                          OTokenType (typ' (first_token (pending d0))),
                          OString ''subject''])), zero_Quad, d4)"
      by auto
    show ?thesis
      by (simp add: routine out)
  qed
  have uncaught: "Decode parse d2 = (Panic p, d3) \<longrightarrow> DecodeAll parse d2 = Some (Panic p, d3)"
    by (simp add: DecodeAll_panic)
  show ?thesis
    using raised recov boundary routine nopanic fault uncaught by blast
qed

theorem grammar_violation_caught_at_Decode_witness:
  "0 \<le> peekCount (NewQuadDecoder (\<lambda>r. r) [comment_token, dot_token] FormatNQ)
   \<and> peekCount (NewQuadDecoder (\<lambda>r. r) [comment_token, dot_token] FormatNQ) \<le> 1
   \<and> first_token (pending (NewQuadDecoder (\<lambda>r. r) [comment_token, dot_token] FormatNQ))
       = dot_token
   \<and> fst (parseNQ_body (NewQuadDecoder (\<lambda>r. r) [comment_token, dot_token] FormatNQ))
       = Panic (ErrorValue (Errorf ''%d:%d unexpected %v as %s''
           [OInt 3, OInt 7, OTokenType tokenDot, OString ''subject'']))
   \<and> fst (Decode parseNQ (NewQuadDecoder (\<lambda>r. r) [comment_token, dot_token] FormatNQ))
       = Return (zero_Quad, Some (Errorf ''%d:%d unexpected %v as %s''
           [OInt 3, OInt 7, OTokenType tokenDot, OString ''subject'']))
   \<and> Decode parseNQ ((NewQuadDecoder (\<lambda>r. r) [dot_token] FormatNQ)\<lparr>peekCount := 7\<rparr>)
       = (Panic (RuntimeError ''index out of range''),
          (NewQuadDecoder (\<lambda>r. r) [dot_token] FormatNQ)\<lparr>peekCount := 7\<rparr>)
   \<and> DecodeAll parseNQ ((NewQuadDecoder (\<lambda>r. r) [dot_token] FormatNQ)\<lparr>peekCount := 7\<rparr>)
       = Some (Panic (RuntimeError ''index out of range''),
          (NewQuadDecoder (\<lambda>r. r) [dot_token] FormatNQ)\<lparr>peekCount := 7\<rparr>)"
proof -
  let ?d = "NewQuadDecoder (\<lambda>r. r) [comment_token, dot_token] FormatNQ"
  let ?b = "(NewQuadDecoder (\<lambda>r. r) [dot_token] FormatNQ)\<lparr>peekCount := 7\<rparr>"
  have h1: "0 \<le> peekCount ?d \<and> peekCount ?d \<le> 1"
    by (simp add: NewQuadDecoder_def)
  have ft: "first_token (pending ?d) = dot_token"
    by (simp add: pending_new first_token_def comment_token_def dot_token_def)
  have k: "typ' dot_token = tokenDot" "line dot_token = 3" "col dot_token = 7"
    by (simp_all add: dot_token_def)
  have pk: "peek list_lexer ?b = (Panic (RuntimeError ''index out of range''), ?b)"
    by (simp add: peek_def NewQuadDecoder_def)
  have h2: "Decode parseNQ ?b = (Panic (RuntimeError ''index out of range''), ?b)"
    using pk
    by (subst Decode_def, subst parseNQ_def, subst parseNQ_body_def, subst skip_space.simps)
      (simp add: deferred_recover_def recover_def)
  from grammar_violation_caught_at_Decode [where ?d0.0 = ?d and parse = parseNQ and ?d2.0 = ?b
      and p = "RuntimeError ''index out of range''" and ?d3.0 = ?b
      and fm = "[]" and args = "[]" and t = dot_token and c = "[]" and err = None
      and e = io_EOF and m = "[]" and v = "[]"
      and body = "\<lambda>s :: unit. (Return None, zero_Quad, s)" and d = "()",
      THEN conjunct2, THEN conjunct2, THEN conjunct2, THEN conjunct2, THEN conjunct2,
      THEN conjunct2, THEN conjunct2, THEN conjunct2, THEN conjunct2, THEN conjunct2] h1 h2
  have "fst (parseNQ_body ?d) = Panic (ErrorValue (Errorf ''%d:%d unexpected %v as %s''
           [OInt 3, OInt 7, OTokenType tokenDot, OString ''subject'']))
     \<and> fst (Decode parseNQ ?d) = Return (zero_Quad, Some (Errorf ''%d:%d unexpected %v as %s''
           [OInt 3, OInt 7, OTokenType tokenDot, OString ''subject'']))
     \<and> DecodeAll parseNQ ?b = Some (Panic (RuntimeError ''index out of range''), ?b)"
    by (simp add: ft k)
  with h1 ft h2 show ?thesis by blast
qed

end
